theory Spec2Isabelle
  imports Main "HOL-Library.Word"
begin

unbundle bit_operations_syntax

section \<open>Python values as the pipeline sees them\<close>

text \<open>
  The transform module passes rows around as \<^verbatim>\<open>dict[str, Any]\<close>. The values that reach
  \<^verbatim>\<open>sha256_rowhash\<close> are observed through two operations only: their truth value
  (\<^verbatim>\<open>v or ""\<close>) and \<^verbatim>\<open>str(v)\<close>.

  Strings are byte strings holding the UTF-8 encoding, so that
  \<^verbatim>\<open>s.encode("utf-8", errors="ignore")\<close> is the identity on them.
  A float is identified by its \<^verbatim>\<open>repr\<close> text, which Python guarantees to round-trip:
  \<^verbatim>\<open>0.0\<close> and \<^verbatim>\<open>-0.0\<close> are the two zeros, \<^verbatim>\<open>nan\<close>, \<^verbatim>\<open>inf\<close> and \<^verbatim>\<open>-inf\<close>
  the non-finite values.
  A naive timestamp is the proleptic Gregorian ordinal of its day (day 1 is 0001-01-01,
  as \<^verbatim>\<open>date.toordinal\<close>) and the microsecond within that day; a date is its ordinal.
\<close>

datatype py_error =
    TypeError | KeyError | ValueError | OverflowError
  | HTTPError | RuntimeError | OSError | DbError

record datetime =
  ordinal :: int
  micros :: int

datatype pyval =
    PyNone
  | PyNA
  | PyNaT
  | PyBool bool
  | PyInt int
  | PyFloat string
  | PyStr string
  | PyTimestamp datetime
  | PyDate int

type_synonym row = "string \<rightharpoonup> pyval"

text \<open>
  \<^verbatim>\<open>bool(v)\<close>: \<^verbatim>\<open>None\<close>, \<^verbatim>\<open>False\<close>, zero and the empty string are false;
  \<^verbatim>\<open>pandas.NA\<close> refuses to be tested (\<^verbatim>\<open>TypeError: boolean value of NA is ambiguous\<close>);
  \<^verbatim>\<open>nan\<close>, \<^verbatim>\<open>NaT\<close> and timestamps are true.
\<close>

fun py_bool :: "pyval \<Rightarrow> py_error + bool" where
  "py_bool PyNone = Inr False"
| "py_bool PyNA = Inl TypeError"
| "py_bool PyNaT = Inr True"
| "py_bool (PyBool b) = Inr b"
| "py_bool (PyInt i) = Inr (i \<noteq> 0)"
| "py_bool (PyFloat f) = Inr (f \<noteq> ''0.0'' \<and> f \<noteq> ''-0.0'')"
| "py_bool (PyStr s) = Inr (s \<noteq> [])"
| "py_bool (PyTimestamp t) = Inr True"
| "py_bool (PyDate d) = Inr True"

subsection \<open>Decimal printing\<close>

definition digit_char :: "int \<Rightarrow> char" where
  "digit_char d = char_of (48 + d)"

function dec_digits :: "int \<Rightarrow> string" where
  "dec_digits n = (if n < 10 then [digit_char n] else dec_digits (n div 10) @ [digit_char (n mod 10)])"
  by pat_completeness auto
termination
  by (relation "measure nat") auto

declare dec_digits.simps [simp del]

definition str_int :: "int \<Rightarrow> string" where
  "str_int i = (if i < 0 then CHR ''-'' # dec_digits (- i) else dec_digits i)"

text \<open>\<^verbatim>\<open>"%0*d"\<close>: the last \<open>k\<close> decimal digits of a non-negative number, zero padded.\<close>

fun zero_pad :: "nat \<Rightarrow> int \<Rightarrow> string" where
  "zero_pad 0 n = []"
| "zero_pad (Suc k) n = zero_pad k (n div 10) @ [digit_char (n mod 10)]"

subsection \<open>Dates: the proleptic Gregorian calendar of \<^verbatim>\<open>datetime\<close>\<close>

text \<open>
  \<^verbatim>\<open>datetime\<close> is the standard library's; the pipeline uses \<^verbatim>\<open>date.today()\<close>,
  \<^verbatim>\<open>datetime.combine\<close>, subtraction of \<^verbatim>\<open>timedelta(days=n)\<close>, \<^verbatim>\<open>fromisoformat\<close>
  and \<^verbatim>\<open>isoformat(sep=" ")\<close>. The definitions follow the library's own ordinal
  arithmetic (\<^verbatim>\<open>_ymd2ord\<close>, \<^verbatim>\<open>_ord2ymd\<close>).
\<close>

definition MAXORDINAL :: int where
  "MAXORDINAL = 3652059"

definition is_leap :: "int \<Rightarrow> bool" where
  "is_leap y = (y mod 4 = 0 \<and> (y mod 100 \<noteq> 0 \<or> y mod 400 = 0))"

definition days_before_year :: "int \<Rightarrow> int" where
  "days_before_year year = (let y = year - 1 in y * 365 + y div 4 - y div 100 + y div 400)"

definition DAYS_IN_MONTH :: "int list" where
  "DAYS_IN_MONTH = [31, 28, 31, 30, 31, 30, 31, 31, 30, 31, 30, 31]"

definition DAYS_BEFORE_MONTH :: "int list" where
  "DAYS_BEFORE_MONTH = [0, 31, 59, 90, 120, 151, 181, 212, 243, 273, 304, 334]"

definition days_in_month :: "int \<Rightarrow> int \<Rightarrow> int" where
  "days_in_month y m = (if m = 2 \<and> is_leap y then 29 else DAYS_IN_MONTH ! nat (m - 1))"

definition days_before_month :: "bool \<Rightarrow> int \<Rightarrow> int" where
  "days_before_month leap m = DAYS_BEFORE_MONTH ! nat (m - 1) + (if 2 < m \<and> leap then 1 else 0)"

definition ymd2ord :: "int \<Rightarrow> int \<Rightarrow> int \<Rightarrow> int" where
  "ymd2ord y m d = days_before_year y + days_before_month (is_leap y) m + d"

definition ord2ymd :: "int \<Rightarrow> int \<times> int \<times> int" where
  "ord2ymd n0 =
     (let n = n0 - 1;
          n400 = n div 146097; n = n mod 146097;
          n100 = n div 36524; n = n mod 36524;
          n4 = n div 1461; n = n mod 1461;
          n1 = n div 365; n = n mod 365;
          year = n400 * 400 + 1 + n100 * 100 + n4 * 4 + n1
      in if n1 = 4 \<or> n100 = 4 then (year - 1, 12, 31)
         else
           (let leapyear = (n1 = 3 \<and> (n4 \<noteq> 24 \<or> n100 = 3));
                month = (n + 50) div 32;
                preceding = days_before_month leapyear month
            in if n < preceding
               then (let month' = month - 1;
                         preceding' = preceding
                           - (DAYS_IN_MONTH ! nat (month' - 1) + (if month' = 2 \<and> leapyear then 1 else 0))
                     in (year, month', n - preceding' + 1))
               else (year, month, n - preceding + 1)))"

text \<open>\<^verbatim>\<open>d - timedelta(days=n)\<close>: \<^verbatim>\<open>OverflowError\<close> outside 0001-01-01 .. 9999-12-31.\<close>

definition sub_days :: "datetime \<Rightarrow> int \<Rightarrow> py_error + datetime" where
  "sub_days t n =
     (if 999999999 < \<bar>n\<bar> then Inl OverflowError
      else if 0 < ordinal t - n \<and> ordinal t - n \<le> MAXORDINAL
      then Inr (t\<lparr>ordinal := ordinal t - n\<rparr>)
      else Inl OverflowError)"

text \<open>\<^verbatim>\<open>datetime.combine(d, time.min)\<close> for the date with ordinal \<open>d\<close>.\<close>

definition midnight :: "int \<Rightarrow> datetime" where
  "midnight d = \<lparr>ordinal = d, micros = 0\<rparr>"

text \<open>
  \<^verbatim>\<open>isoformat(sep=" ")\<close>, which is also \<^verbatim>\<open>str\<close> of a naive
  \<^verbatim>\<open>pandas.Timestamp\<close> at microsecond resolution: the fraction is printed only when
  it is not zero.
\<close>

definition isoformat :: "datetime \<Rightarrow> string" where
  "isoformat t =
     (case ord2ymd (ordinal t) of (y, m, d) \<Rightarrow>
        let us = micros t;
            secs = us div 1000000;
            frac = us mod 1000000
        in zero_pad 4 y @ ''-'' @ zero_pad 2 m @ ''-'' @ zero_pad 2 d @ '' ''
           @ zero_pad 2 (secs div 3600) @ '':'' @ zero_pad 2 (secs div 60 mod 60) @ '':''
           @ zero_pad 2 (secs mod 60)
           @ (if frac = 0 then [] else ''.'' @ zero_pad 6 frac))"

fun digits_val :: "int \<Rightarrow> string \<Rightarrow> int option" where
  "digits_val acc [] = Some acc"
| "digits_val acc (c # cs) =
     (if (48 :: int) \<le> of_char c \<and> of_char c \<le> (57 :: int)
      then digits_val (acc * 10 + (of_char c - 48)) cs else None)"

definition parse_num :: "string \<Rightarrow> int option" where
  "parse_num s = (if s = [] then None else digits_val 0 s)"

definition parse_date :: "string \<Rightarrow> int option" where
  "parse_date s =
     (if length s = 10 \<and> s ! 4 = CHR ''-'' \<and> s ! 7 = CHR ''-''
      then (case (parse_num (take 4 s), parse_num (take 2 (drop 5 s)), parse_num (drop 8 s)) of
              (Some y, Some m, Some d) \<Rightarrow>
                if 1 \<le> y \<and> 1 \<le> m \<and> m \<le> 12 \<and> 1 \<le> d \<and> d \<le> days_in_month y m
                then Some (ymd2ord y m d) else None
            | _ \<Rightarrow> None)
      else None)"

definition parse_time :: "string \<Rightarrow> int option" where
  "parse_time s =
     (let hh = parse_num (take 2 s);
          mm = (if length s < 5 then Some 0 else parse_num (take 2 (drop 3 s)));
          ss = (if length s < 8 then Some 0 else parse_num (take 2 (drop 6 s)));
          ff = (if length s = 12 then map_option (\<lambda>f. f * 1000) (parse_num (drop 9 s))
                else if length s = 15 then parse_num (drop 9 s) else Some 0);
          shape = (length s \<in> {2, 5, 8, 12, 15}
                   \<and> (length s < 5 \<or> s ! 2 = CHR '':'')
                   \<and> (length s < 8 \<or> s ! 5 = CHR '':'')
                   \<and> (length s < 12 \<or> s ! 8 = CHR ''.''))
      in case (hh, mm, ss, ff) of
           (Some h, Some m, Some sec, Some f) \<Rightarrow>
             if shape \<and> h < 24 \<and> m < 60 \<and> sec < 60
             then Some (((h * 60 + m) * 60 + sec) * 1000000 + f) else None
         | _ \<Rightarrow> None)"

text \<open>
  \<^verbatim>\<open>datetime.fromisoformat\<close> on the naive forms: a date, or a date, one separator
  character and a time. A text with a UTC offset denotes an aware datetime; the pipeline
  writes none (the watermark is \<^verbatim>\<open>isoformat\<close> of a naive value), and the model
  rejects it like any other malformed text.
\<close>

definition fromisoformat :: "string \<Rightarrow> py_error + datetime" where
  "fromisoformat s =
     (case parse_date (take 10 s) of
        None \<Rightarrow> Inl ValueError
      | Some d \<Rightarrow>
          if length s = 10 then Inr (midnight d)
          else (case parse_time (drop 11 s) of
                  None \<Rightarrow> Inl ValueError
                | Some us \<Rightarrow> Inr \<lparr>ordinal = d, micros = us\<rparr>))"

definition dt_le :: "datetime \<Rightarrow> datetime \<Rightarrow> bool" where
  "dt_le a b = (ordinal a < ordinal b \<or> (ordinal a = ordinal b \<and> micros a \<le> micros b))"

subsection \<open>\<^verbatim>\<open>str\<close>\<close>

fun py_str :: "pyval \<Rightarrow> string" where
  "py_str PyNone = ''None''"
| "py_str PyNA = ''<NA>''"
| "py_str PyNaT = ''NaT''"
| "py_str (PyBool b) = (if b then ''True'' else ''False'')"
| "py_str (PyInt i) = str_int i"
| "py_str (PyFloat f) = f"
| "py_str (PyStr s) = s"
| "py_str (PyTimestamp t) = isoformat t"
| "py_str (PyDate d) = take 10 (isoformat (midnight d))"

section \<open>SHA-256 (\<^verbatim>\<open>hashlib.sha256\<close>)\<close>

text \<open>
  FIPS 180-4 over 32-bit words held as integers in \<open>0 ..< 2^32\<close>, every addition reduced
  modulo \<open>2^32\<close>. The message schedule is kept as a sliding window of sixteen words.
  Bytes are characters.
\<close>

definition add32 :: "int \<Rightarrow> int \<Rightarrow> int" where
  "add32 x y = (x + y) mod 4294967296"

definition rotr :: "nat \<Rightarrow> int \<Rightarrow> int" where
  "rotr n x = drop_bit n x OR take_bit 32 (push_bit (32 - n) x)"

definition ch :: "int \<Rightarrow> int \<Rightarrow> int \<Rightarrow> int" where
  "ch x y z = (x AND y) XOR ((x XOR 4294967295) AND z)"

definition maj :: "int \<Rightarrow> int \<Rightarrow> int \<Rightarrow> int" where
  "maj x y z = (x AND y) XOR (x AND z) XOR (y AND z)"

definition bsig0 :: "int \<Rightarrow> int" where
  "bsig0 x = rotr 2 x XOR rotr 13 x XOR rotr 22 x"

definition bsig1 :: "int \<Rightarrow> int" where
  "bsig1 x = rotr 6 x XOR rotr 11 x XOR rotr 25 x"

definition ssig0 :: "int \<Rightarrow> int" where
  "ssig0 x = rotr 7 x XOR rotr 18 x XOR drop_bit 3 x"

definition ssig1 :: "int \<Rightarrow> int" where
  "ssig1 x = rotr 17 x XOR rotr 19 x XOR drop_bit 10 x"

definition K256 :: "int list" where
  "K256 = [
  1116352408, 1899447441, 3049323471, 3921009573, 961987163, 1508970993, 2453635748, 2870763221,
  3624381080, 310598401, 607225278, 1426881987, 1925078388, 2162078206, 2614888103, 3248222580,
  3835390401, 4022224774, 264347078, 604807628, 770255983, 1249150122, 1555081692, 1996064986,
  2554220882, 2821834349, 2952996808, 3210313671, 3336571891, 3584528711, 113926993, 338241895,
  666307205, 773529912, 1294757372, 1396182291, 1695183700, 1986661051, 2177026350, 2456956037,
  2730485921, 2820302411, 3259730800, 3345764771, 3516065817, 3600352804, 4094571909, 275423344,
  430227734, 506948616, 659060556, 883997877, 958139571, 1322822218, 1537002063, 1747873779,
  1955562222, 2024104815, 2227730452, 2361852424, 2428436474, 2756734187, 3204031479, 3329325298]"

type_synonym hstate = "int \<times> int \<times> int \<times> int \<times> int \<times> int \<times> int \<times> int"

definition H0 :: hstate where
  "H0 = (1779033703, 3144134277, 1013904242, 2773480762,
         1359893119, 2600822924, 528734635, 1541459225)"

definition sha_round :: "hstate \<Rightarrow> int \<Rightarrow> int \<Rightarrow> hstate" where
  "sha_round s k w = (case s of (a, b, c, d, e, f, g, h) \<Rightarrow>
     (let t1 = add32 (add32 (add32 (add32 h (bsig1 e)) (ch e f g)) k) w;
          t2 = add32 (bsig0 a) (maj a b c)
      in (add32 t1 t2, a, b, c, add32 d t1, e, f, g)))"

definition next_word :: "int list \<Rightarrow> int" where
  "next_word w = add32 (add32 (add32 (ssig1 (w ! 14)) (w ! 9)) (ssig0 (w ! 1))) (w ! 0)"

fun sha_rounds :: "int list \<Rightarrow> int list \<Rightarrow> hstate \<Rightarrow> hstate" where
  "sha_rounds [] w s = s"
| "sha_rounds (k # ks) w s = sha_rounds ks (tl w @ [next_word w]) (sha_round s k (hd w))"

definition add_state :: "hstate \<Rightarrow> hstate \<Rightarrow> hstate" where
  "add_state s t = (case s of (a, b, c, d, e, f, g, h) \<Rightarrow>
     (case t of (a', b', c', d', e', f', g', h') \<Rightarrow>
        (add32 a a', add32 b b', add32 c c', add32 d d',
         add32 e e', add32 f f', add32 g g', add32 h h')))"

definition compress :: "hstate \<Rightarrow> int list \<Rightarrow> hstate" where
  "compress h blk = add_state h (sha_rounds K256 blk h)"

definition byte_of :: "int \<Rightarrow> char" where
  "byte_of x = char_of (x mod 256)"

definition be_bytes :: "nat list \<Rightarrow> int \<Rightarrow> string" where
  "be_bytes shifts x = map (\<lambda>k. byte_of (drop_bit k x)) shifts"

definition sha_pad :: "string \<Rightarrow> string" where
  "sha_pad m = m @ [char_of (128 :: int)]
     @ replicate ((119 - length m mod 64) mod 64) (char_of (0 :: int))
     @ be_bytes [56, 48, 40, 32, 24, 16, 8, 0] (8 * int (length m))"

fun words_of :: "string \<Rightarrow> int list" where
  "words_of (a # b # c # d # rest) =
     (((of_char a * 256 + of_char b) * 256 + of_char c) * 256 + of_char d) # words_of rest"
| "words_of _ = []"

function blocks :: "int list \<Rightarrow> int list list" where
  "blocks ws = (if length ws < 16 then [] else take 16 ws # blocks (drop 16 ws))"
  by pat_completeness auto
termination
  by (relation "measure length") auto

declare blocks.simps [simp del]

definition sha256 :: "string \<Rightarrow> string" where
  "sha256 m =
     (case foldl compress H0 (blocks (words_of (sha_pad m))) of (a, b, c, d, e, f, g, h) \<Rightarrow>
        concat (map (be_bytes [24, 16, 8, 0]) [a, b, c, d, e, f, g, h]))"

definition hexdigest :: "string \<Rightarrow> string" where
  "hexdigest bs =
     concat (map (\<lambda>b. [''0123456789abcdef'' ! (of_char b div 16),
                        ''0123456789abcdef'' ! (of_char b mod 16)]) bs)"

section \<open>The content hash (\<^verbatim>\<open>sha256_rowhash\<close>)\<close>

text \<open>\<^verbatim>\<open>str(row.get(key) or "")\<close>: a missing key reads as \<^verbatim>\<open>None\<close>.\<close>

definition row_get :: "row \<Rightarrow> string \<Rightarrow> pyval" where
  "row_get r k = (case r k of None \<Rightarrow> PyNone | Some v \<Rightarrow> v)"

definition str_or_empty :: "pyval \<Rightarrow> py_error + string" where
  "str_or_empty v =
     (case py_bool v of
        Inl e \<Rightarrow> Inl e
      | Inr b \<Rightarrow> Inr (py_str (if b then v else PyStr [])))"

definition hash_fields :: "string list" where
  "hash_fields =
     [''user_trip_id'', ''start_time'', ''end_time'',
      ''start_longitude'', ''start_latitude'', ''end_longitude'', ''end_latitude'',
      ''service_name'', ''route_short_name'', ''mode'', ''start_stop_name'', ''end_stop_name'',
      ''source_file'', ''file_date_raw'', ''Origin_BG'', ''Dest_BG'']"

text \<open>The list display: the first part that raises ends the evaluation.\<close>

fun collect :: "(py_error + 'a) list \<Rightarrow> py_error + 'a list" where
  "collect [] = Inr []"
| "collect (x # xs) =
     (case x of
        Inl e \<Rightarrow> Inl e
      | Inr v \<Rightarrow> (case collect xs of Inl e \<Rightarrow> Inl e | Inr vs \<Rightarrow> Inr (v # vs)))"

definition hash_parts :: "row \<Rightarrow> py_error + string list" where
  "hash_parts r = collect (map (\<lambda>k. str_or_empty (row_get r k)) hash_fields)"

text \<open>\<^verbatim>\<open>sep.join(parts)\<close>\<close>

fun join :: "string \<Rightarrow> string list \<Rightarrow> string" where
  "join sep [] = []"
| "join sep [p] = p"
| "join sep (p # q # ps) = p @ sep @ join sep (q # ps)"

text \<open>The bytes handed to SHA-256: \<^verbatim>\<open>"|".join(parts).encode("utf-8", errors="ignore")\<close>.\<close>

definition hash_input :: "row \<Rightarrow> py_error + string" where
  "hash_input r = (case hash_parts r of Inl e \<Rightarrow> Inl e | Inr ps \<Rightarrow> Inr (join ''|'' ps))"

definition sha256_rowhash :: "row \<Rightarrow> py_error + string" where
  "sha256_rowhash r =
     (case hash_input r of Inl e \<Rightarrow> Inl e | Inr s \<Rightarrow> Inr (hexdigest (sha256 s)))"

section \<open>Incremental extract\<close>

text \<open>
  \<^verbatim>\<open>compute_since(last_file_dt, rolling_days, overlap_days)\<close>; the first argument of
  the model is \<^verbatim>\<open>date.today()\<close> as an ordinal.
\<close>

definition compute_since :: "int \<Rightarrow> string option \<Rightarrow> int \<Rightarrow> int \<Rightarrow> py_error + datetime" where
  "compute_since today last_file_dt rolling_days overlap_days =
     (case last_file_dt of
        None \<Rightarrow>
          (case sub_days (midnight today) rolling_days of
             Inl e \<Rightarrow> Inl e
           | Inr d \<Rightarrow> Inr (midnight (ordinal d)))
      | Some text \<Rightarrow>
          (case fromisoformat text of
             Inl e \<Rightarrow> Inl e
           | Inr watermark \<Rightarrow> sub_days watermark overlap_days))"

text \<open>
  The raw table holds one \<^typ>\<open>row\<close> per trip leg, keyed by column name, with the
  values as pandas reads them back; \<^verbatim>\<open>file_date\<close> is a timestamp or \<^verbatim>\<open>NULL\<close>.
  \<^verbatim>\<open>fetch_new_raw\<close> selects eighteen columns, renaming \<^verbatim>\<open>file_date\<close> to
  \<^verbatim>\<open>file_date_raw\<close>, where \<^verbatim>\<open>file_date >= since\<close> (never true of \<^verbatim>\<open>NULL\<close>).
\<close>

definition select_cols :: "string list" where
  "select_cols =
     [''user_trip_id'', ''start_time'', ''end_time'',
      ''start_longitude'', ''start_latitude'', ''end_longitude'', ''end_latitude'',
      ''service_name'', ''route_short_name'', ''mode'', ''start_stop_name'', ''end_stop_name'',
      ''source_file'', ''manhattan_distance_mi'', ''euclidean_distance_mi'',
      ''Origin_BG'', ''Dest_BG'']"

definition file_date_ge :: "datetime \<Rightarrow> row \<Rightarrow> bool" where
  "file_date_ge since r =
     (case r ''file_date'' of Some (PyTimestamp t) \<Rightarrow> dt_le since t | _ \<Rightarrow> False)"

definition select_row :: "row \<Rightarrow> row" where
  "select_row r =
     (\<lambda>k. if k = ''file_date_raw'' then Some (row_get r ''file_date'')
          else if k \<in> set select_cols then Some (row_get r k)
          else None)"

definition fetch_new_raw :: "row list \<Rightarrow> datetime \<Rightarrow> row list" where
  "fetch_new_raw source_table since = map select_row (filter (file_date_ge since) source_table)"

section \<open>Transform\<close>

text \<open>
  The pandas parsers of texts are parameters of the model:
  \<^verbatim>\<open>pd.to_datetime(v, errors="coerce")\<close>, the same with \<^verbatim>\<open>utc=True\<close> followed by
  \<^verbatim>\<open>tz_convert(None)\<close>, and \<^verbatim>\<open>pd.to_numeric(v, errors="coerce")\<close> (the \<^verbatim>\<open>repr\<close>
  of the resulting float). \<^verbatim>\<open>None\<close> stands for \<^verbatim>\<open>NaT\<close>. On values that are
  already timestamps or floats, and on missing values, the conversions are fixed below.
\<close>

record pandas =
  parse_datetime :: "pyval \<Rightarrow> datetime option"
  parse_datetime_utc :: "pyval \<Rightarrow> datetime option"
  parse_numeric :: "pyval \<Rightarrow> string"

definition to_datetime :: "(pyval \<Rightarrow> datetime option) \<Rightarrow> pyval \<Rightarrow> datetime option" where
  "to_datetime parse v =
     (case v of
        PyTimestamp t \<Rightarrow> Some t
      | PyNone \<Rightarrow> None
      | PyNA \<Rightarrow> None
      | PyNaT \<Rightarrow> None
      | _ \<Rightarrow> parse v)"

definition timestamp_val :: "datetime option \<Rightarrow> pyval" where
  "timestamp_val t = (case t of None \<Rightarrow> PyNaT | Some d \<Rightarrow> PyTimestamp d)"

text \<open>\<^verbatim>\<open>.dt.date\<close>\<close>

definition date_val :: "datetime option \<Rightarrow> pyval" where
  "date_val t = (case t of None \<Rightarrow> PyNaT | Some d \<Rightarrow> PyDate (ordinal d))"

definition to_numeric :: "(pyval \<Rightarrow> string) \<Rightarrow> pyval \<Rightarrow> pyval" where
  "to_numeric parse v =
     (case v of
        PyFloat f \<Rightarrow> PyFloat f
      | PyNone \<Rightarrow> PyFloat ''nan''
      | PyNA \<Rightarrow> PyFloat ''nan''
      | PyNaT \<Rightarrow> PyFloat ''nan''
      | _ \<Rightarrow> PyFloat (parse v))"

text \<open>\<^verbatim>\<open>pd.isna\<close>\<close>

definition isna :: "pyval \<Rightarrow> bool" where
  "isna v = (v = PyNone \<or> v = PyNA \<or> v = PyNaT \<or> v = PyFloat ''nan'')"

text \<open>\<^verbatim>\<open>.astype("string")\<close>: missing values become \<^verbatim>\<open>pandas.NA\<close>.\<close>

definition astype_string :: "pyval \<Rightarrow> pyval" where
  "astype_string v = (if isna v then PyNA else PyStr (py_str v))"

definition numeric_cols :: "string list" where
  "numeric_cols =
     [''start_longitude'', ''start_latitude'', ''end_longitude'', ''end_latitude'',
      ''manhattan_distance_mi'', ''euclidean_distance_mi'']"

definition string_cols :: "string list" where
  "string_cols = [''user_trip_id'', ''Origin_BG'', ''Dest_BG'', ''source_file'']"

text \<open>The frame \<^verbatim>\<open>df\<close> of \<^verbatim>\<open>clean_transform\<close> just before the hash is taken, row by row.\<close>

definition convert_columns :: "pandas \<Rightarrow> row \<Rightarrow> row" where
  "convert_columns P r =
     (let df = r(''trip_date'' \<mapsto>
                   date_val (to_datetime (parse_datetime P) (row_get r ''file_date_raw'')));
          df = df(''start_time_utc'' \<mapsto>
                   timestamp_val (to_datetime (parse_datetime_utc P) (row_get df ''start_time'')));
          df = df(''end_time_utc'' \<mapsto>
                   timestamp_val (to_datetime (parse_datetime_utc P) (row_get df ''end_time'')));
          df = foldl (\<lambda>d c. d(c \<mapsto> to_numeric (parse_numeric P) (row_get d c))) df numeric_cols;
          df = foldl (\<lambda>d c. d(c \<mapsto> astype_string (row_get d c))) df string_cols
      in df)"

definition hashed_row :: "pandas \<Rightarrow> row \<Rightarrow> py_error + row" where
  "hashed_row P r =
     (let df = convert_columns P r
      in case sha256_rowhash df of
           Inl e \<Rightarrow> Inl e
         | Inr h \<Rightarrow> Inr (df(''row_hash_hex'' \<mapsto> PyStr h)))"

definition cols :: "string list" where
  "cols =
     [''row_hash_hex'', ''user_trip_id'',
      ''trip_date'', ''start_time_utc'', ''end_time_utc'',
      ''start_longitude'', ''start_latitude'', ''end_longitude'', ''end_latitude'',
      ''service_name'', ''route_short_name'', ''mode'', ''start_stop_name'', ''end_stop_name'',
      ''source_file'', ''file_date_raw'',
      ''manhattan_distance_mi'', ''euclidean_distance_mi'',
      ''Origin_BG'', ''Dest_BG'']"

text \<open>\<^verbatim>\<open>out.replace([np.inf, -np.inf], np.nan)\<close>\<close>

definition replace_inf :: "pyval \<Rightarrow> pyval" where
  "replace_inf v = (if v = PyFloat ''inf'' \<or> v = PyFloat ''-inf'' then PyFloat ''nan'' else v)"

definition out_row :: "row \<Rightarrow> row" where
  "out_row df = (\<lambda>k. if k \<in> set cols then Some (replace_inf (row_get df k)) else None)"

definition clean_transform :: "pandas \<Rightarrow> row list \<Rightarrow> py_error + row list" where
  "clean_transform P raw =
     (if raw = [] then Inr raw
      else (case collect (map (hashed_row P) raw) of
              Inl e \<Rightarrow> Inl e
            | Inr df \<Rightarrow>
                Inr (map out_row (filter (\<lambda>r. \<not> isna (row_get r ''trip_date'')) df))))"

section \<open>Load: the insert-only upsert\<close>

text \<open>
  \<^verbatim>\<open>_sql_safe\<close>: missing and non-finite values become \<^verbatim>\<open>None\<close> (SQL \<^verbatim>\<open>NULL\<close>),
  a timestamp is rounded down to the millisecond.
\<close>

definition sql_safe :: "pyval \<Rightarrow> pyval" where
  "sql_safe v =
     (if v = PyNone then PyNone
      else if v = PyFloat ''nan'' \<or> v = PyFloat ''inf'' \<or> v = PyFloat ''-inf'' then PyNone
      else if isna v then PyNone
      else (case v of
              PyTimestamp t \<Rightarrow> PyTimestamp (t\<lparr>micros := micros t div 1000 * 1000\<rparr>)
            | _ \<Rightarrow> v))"

text \<open>
  A row of \<^verbatim>\<open>#stg_legtrips\<close> is the tuple of its twenty values in the order of
  \<^const>\<open>cols\<close>. The temporary table declares \<^verbatim>\<open>row_hash_hex\<close>, \<^verbatim>\<open>user_trip_id\<close> and
  \<^verbatim>\<open>trip_date\<close> \<^verbatim>\<open>NOT NULL\<close>; \<^verbatim>\<open>executemany\<close> fails as a whole when a row breaks
  that. The driver's conversions to the declared column types and lengths are not modelled:
  values are taken to fit their columns.
\<close>

type_synonym stg_row = "pyval list"

definition stg_accepts :: "stg_row \<Rightarrow> bool" where
  "stg_accepts t = (length t = 20 \<and> t ! 0 \<noteq> PyNone \<and> t ! 1 \<noteq> PyNone \<and> t ! 2 \<noteq> PyNone)"

definition executemany :: "stg_row list \<Rightarrow> stg_row list \<Rightarrow> py_error + stg_row list" where
  "executemany stg batch = (if list_all stg_accepts batch then Inr (stg @ batch) else Inl DbError)"

definition CHUNK_SIZE :: nat where
  "CHUNK_SIZE = 50000"

text \<open>
  The staging loop over \<^verbatim>\<open>clean_df[cols].itertuples()\<close>: rows still to read, the pending
  \<^verbatim>\<open>batch\<close>, the temporary table and the counter \<^verbatim>\<open>staged\<close>.
\<close>

fun stage_rows ::
  "nat \<Rightarrow> stg_row list \<Rightarrow> stg_row list \<Rightarrow> stg_row list \<Rightarrow> nat \<Rightarrow> py_error + (stg_row list \<times> nat)" where
  "stage_rows chunk [] batch stg staged =
     (if batch \<noteq> []
      then (case executemany stg batch of
              Inl e \<Rightarrow> Inl e
            | Inr stg' \<Rightarrow> Inr (stg', staged + length batch))
      else Inr (stg, staged))"
| "stage_rows chunk (r # rs) batch stg staged =
     (let batch' = batch @ [map sql_safe r]
      in if chunk \<le> length batch'
         then (case executemany stg batch' of
                 Inl e \<Rightarrow> Inl e
               | Inr stg' \<Rightarrow> stage_rows chunk rs [] stg' (staged + length batch'))
         else stage_rows chunk rs batch' stg staged)"

text \<open>
  \<^verbatim>\<open>CONVERT(varbinary(32), row_hash_hex, 2)\<close>: pairs of hexadecimal digits of either
  case, without prefix; an odd length or another character is an error; the result is cut
  to 32 bytes.
\<close>

definition hex_val :: "char \<Rightarrow> int option" where
  "hex_val c =
     (let n = (of_char c :: int)
      in if 48 \<le> n \<and> n \<le> 57 then Some (n - 48)
         else if 97 \<le> n \<and> n \<le> 102 then Some (n - 87)
         else if 65 \<le> n \<and> n \<le> 70 then Some (n - 55)
         else None)"

fun unhex :: "string \<Rightarrow> string option" where
  "unhex [] = Some []"
| "unhex [c] = None"
| "unhex (c # d # cs) =
     (case (hex_val c, hex_val d, unhex cs) of
        (Some h, Some l, Some bs) \<Rightarrow> Some (char_of (h * 16 + l) # bs)
      | _ \<Rightarrow> None)"

definition convert_varbinary32 :: "pyval \<Rightarrow> string option" where
  "convert_varbinary32 v = (case v of PyStr s \<Rightarrow> map_option (take 32) (unhex s) | _ \<Rightarrow> None)"

text \<open>
  A row of \<^verbatim>\<open>mobility.LegTrips_Clean\<close>: the binary \<^verbatim>\<open>row_hash\<close> and the other nineteen
  columns. The table's own declaration is not part of the Python sources; whether it
  declares \<^verbatim>\<open>row_hash\<close> unique is the parameter \<open>uq\<close> of the merge.
\<close>

record clean_rec =
  row_hash :: string
  payload :: "pyval list"

definition to_insert :: "stg_row \<Rightarrow> clean_rec option" where
  "to_insert s = map_option (\<lambda>h. \<lparr>row_hash = h, payload = tl s\<rparr>) (convert_varbinary32 (hd s))"

fun those_opt :: "'a option list \<Rightarrow> 'a list option" where
  "those_opt [] = Some []"
| "those_opt (x # xs) =
     (case x of None \<Rightarrow> None
      | Some v \<Rightarrow> (case those_opt xs of None \<Rightarrow> None | Some vs \<Rightarrow> Some (v # vs)))"

text \<open>
  \<^verbatim>\<open>MERGE tgt USING #stg_legtrips src ON tgt.row_hash = CONVERT(...) WHEN NOT MATCHED BY
  TARGET THEN INSERT\<close>: every source row is matched against the target as it stands when the
  statement starts, and the unmatched source rows are inserted. With a uniqueness
  constraint the statement fails when the result would break it.
\<close>

definition merge_clean :: "bool \<Rightarrow> clean_rec list \<Rightarrow> stg_row list \<Rightarrow> py_error + clean_rec list" where
  "merge_clean uq tgt stg =
     (case those_opt (map to_insert stg) of
        None \<Rightarrow> Inl DbError
      | Some src \<Rightarrow>
          (let unmatched = filter (\<lambda>s. row_hash s \<notin> row_hash ` set tgt) src;
               tgt' = tgt @ unmatched
           in if uq \<and> \<not> distinct (map row_hash tgt') then Inl DbError else Inr tgt'))"

definition upsert_legtrips_clean ::
  "bool \<Rightarrow> clean_rec list \<Rightarrow> row list \<Rightarrow> py_error + (clean_rec list \<times> nat)" where
  "upsert_legtrips_clean uq tgt clean_df =
     (if clean_df = [] then Inr (tgt, 0)
      else (case stage_rows CHUNK_SIZE (map (\<lambda>r. map (row_get r) cols) clean_df) [] [] 0 of
              Inl e \<Rightarrow> Inl e
            | Inr (stg, staged) \<Rightarrow>
                (case merge_clean uq tgt stg of
                   Inl e \<Rightarrow> Inl e
                 | Inr tgt' \<Rightarrow> Inr (tgt', staged))))"

text \<open>
  What the staging loop leaves in \<^verbatim>\<open>#stg_legtrips\<close> for a frame, and the rows the merge
  reads from it (none when a \<^verbatim>\<open>CONVERT\<close> fails).
\<close>

definition staged_rows :: "row list \<Rightarrow> stg_row list" where
  "staged_rows clean_df = map (\<lambda>r. map sql_safe (map (row_get r) cols)) clean_df"

definition source_recs :: "row list \<Rightarrow> clean_rec list option" where
  "source_recs clean_df = those_opt (map to_insert (staged_rows clean_df))"



text \<open>
  Example data: a row of the clean frame with a given \<^verbatim>\<open>row_hash_hex\<close> and
  \<^verbatim>\<open>user_trip_id\<close>, dated 2024-05-01 and otherwise empty, and the table row the merge
  makes of it.
\<close>

definition clean_leg :: "string \<Rightarrow> string \<Rightarrow> row" where
  "clean_leg h u =
     [''row_hash_hex'' \<mapsto> PyStr h, ''user_trip_id'' \<mapsto> PyStr u, ''trip_date'' \<mapsto> PyDate 739007]"

definition clean_leg_rec :: "string \<Rightarrow> string \<Rightarrow> clean_rec" where
  "clean_leg_rec bytes u =
     \<lparr>row_hash = bytes, payload = PyStr u # PyDate 739007 # replicate 17 PyNone\<rparr>"

section \<open>The transform run\<close>

text \<open>
  The watermark file is absent, unreadable as JSON, or a document with the two keys.
\<close>

record wm_state =
  last_file_dt :: "string option"
  last_run_utc :: "string option"

datatype state_file = Missing | Garbled | Doc wm_state

definition load_state :: "state_file \<Rightarrow> py_error + wm_state" where
  "load_state f =
     (case f of
        Missing \<Rightarrow> Inr \<lparr>last_file_dt = None, last_run_utc = None\<rparr>
      | Garbled \<Rightarrow> Inl ValueError
      | Doc d \<Rightarrow> Inr d)"

text \<open>
  The database: the raw table, the clean table with the one fact about its declaration
  that the merge depends on, and whatever the refresh procedure maintains.
\<close>

record 'g database =
  source_table :: "row list"
  clean_table :: "clean_rec list"
  unique_row_hash :: bool
  aggregates :: 'g

text \<open>
  A pyodbc connection with \<^verbatim>\<open>autocommit = False\<close>: statements work on the transaction's
  view, \<^verbatim>\<open>commit\<close> publishes it, \<^verbatim>\<open>rollback\<close> drops it, and \<^verbatim>\<open>close\<close> leaves the
  published state behind.
\<close>

record 'g connection =
  committed :: "'g database"
  working :: "'g database"

definition connect_sql :: "'g database \<Rightarrow> 'g connection" where
  "connect_sql db = \<lparr>committed = db, working = db\<rparr>"

definition commit :: "'g connection \<Rightarrow> 'g connection" where
  "commit cn = cn\<lparr>committed := working cn\<rparr>"

definition rollback :: "'g connection \<Rightarrow> 'g connection" where
  "rollback cn = cn\<lparr>working := committed cn\<rparr>"

definition close :: "'g connection \<Rightarrow> 'g database" where
  "close cn = committed cn"

record config =
  rolling_days :: int
  overlap_days :: int
  proc_days_back :: int
  proc_region_prefix :: "string option"

text \<open>
  What a run takes from outside: the clock, the pandas parsers, the stored procedure
  \<^verbatim>\<open>usp_Refresh_Rolling31_Aggregates\<close> (from \<^verbatim>\<open>@days_back\<close>, \<^verbatim>\<open>@region_prefix\<close>, the
  clean table and the aggregates to the new aggregates, or a failure), and which of the
  calls to the server and to the file system fail. A failed write of the state file leaves
  some file behind.
\<close>

record 'g env =
  today :: int
  now_utc :: string
  pd :: pandas
  connect_fails :: bool
  fetch_fails :: bool
  refresh_proc :: "int \<Rightarrow> string option \<Rightarrow> clean_rec list \<Rightarrow> 'g \<Rightarrow> py_error + 'g"
  commit_fails :: bool
  save_fails :: "state_file option"

record 'g world =
  state_file :: state_file
  db :: "'g database"

datatype stage =
  LoadState | Boundary | Connect | Extract | Transform | Merge | Refresh | Commit | SaveState

datatype outcome = Done | Raised stage py_error

text \<open>\<^verbatim>\<open>pd.to_datetime(raw["file_date_raw"], errors="coerce").max()\<close>, which skips \<^verbatim>\<open>NaT\<close>.\<close>

definition later :: "datetime option \<Rightarrow> datetime option \<Rightarrow> datetime option" where
  "later a b =
     (case a of None \<Rightarrow> b
      | Some x \<Rightarrow> (case b of None \<Rightarrow> a | Some y \<Rightarrow> if dt_le x y then b else a))"

definition max_file_date :: "pandas \<Rightarrow> row list \<Rightarrow> datetime option" where
  "max_file_date P raw =
     foldl later None (map (\<lambda>r. to_datetime (parse_datetime P) (row_get r ''file_date_raw'')) raw)"

text \<open>The state written after the commit.\<close>

definition next_state :: "'g env \<Rightarrow> wm_state \<Rightarrow> row list \<Rightarrow> wm_state" where
  "next_state E state raw =
     (let state = (if raw \<noteq> []
                   then (case max_file_date (pd E) raw of
                           None \<Rightarrow> state
                         | Some max_fdt \<Rightarrow> state\<lparr>last_file_dt := Some (isoformat max_fdt)\<rparr>)
                   else state)
      in state\<lparr>last_run_utc := Some (now_utc E)\<rparr>)"

text \<open>\<^verbatim>\<open>except Exception: cn.rollback(); raise\<close> and \<^verbatim>\<open>finally: cn.close()\<close>\<close>

definition abort :: "stage \<Rightarrow> py_error \<Rightarrow> 'g connection \<Rightarrow> 'g world \<Rightarrow> outcome \<times> 'g world" where
  "abort st e cn w = (Raised st e, w\<lparr>db := close (rollback cn)\<rparr>)"

definition run :: "config \<Rightarrow> 'g env \<Rightarrow> 'g world \<Rightarrow> outcome \<times> 'g world" where
  "run cfg E w =
     (case load_state (state_file w) of
        Inl e \<Rightarrow> (Raised LoadState e, w)
      | Inr state \<Rightarrow>
     (case compute_since (today E) (last_file_dt state) (rolling_days cfg) (overlap_days cfg) of
        Inl e \<Rightarrow> (Raised Boundary e, w)
      | Inr since \<Rightarrow>
     if connect_fails E then (Raised Connect DbError, w)
     else
       let cn = connect_sql (db w)
       in if fetch_fails E then abort Extract DbError cn w
          else
            let raw = fetch_new_raw (source_table (working cn)) since
            in (case clean_transform (pd E) raw of
                  Inl e \<Rightarrow> abort Transform e cn w
                | Inr clean \<Rightarrow>
               (case upsert_legtrips_clean (unique_row_hash (working cn))
                       (clean_table (working cn)) clean of
                  Inl e \<Rightarrow> abort Merge e cn w
                | Inr (tgt, staged) \<Rightarrow>
                    let cn = cn\<lparr>working := (working cn)\<lparr>clean_table := tgt\<rparr>\<rparr>
                    in (case refresh_proc E (proc_days_back cfg) (proc_region_prefix cfg)
                               (clean_table (working cn)) (aggregates (working cn)) of
                          Inl e \<Rightarrow> abort Refresh e cn w
                        | Inr aggs \<Rightarrow>
                            let cn = cn\<lparr>working := (working cn)\<lparr>aggregates := aggs\<rparr>\<rparr>
                            in if commit_fails E then abort Commit DbError cn w
                               else
                                 let cn = commit cn
                                 in (case save_fails E of
                                       Some left \<Rightarrow>
                                         abort SaveState OSError cn (w\<lparr>state_file := left\<rparr>)
                                     | None \<Rightarrow>
                                         (Done, \<lparr>state_file = Doc (next_state E state raw),
                                                 db = close cn\<rparr>)))))))"

text \<open>
  A history of the pipeline: files appended to the raw table by the ingest, and transform
  runs. \<^const>\<open>Done\<close> marks a successful run.
\<close>

datatype 'g event = Append "row list" | Run config "'g env"

fun step :: "'g world \<Rightarrow> 'g event \<Rightarrow> outcome \<times> 'g world" where
  "step w (Append new_rows) =
     (Done, w\<lparr>db := (db w)\<lparr>source_table := source_table (db w) @ new_rows\<rparr>\<rparr>)"
| "step w (Run cfg E) = run cfg E w"

text \<open>The worlds a history passes through, as long as every step succeeds.\<close>

fun history :: "'g world \<Rightarrow> 'g event list \<Rightarrow> 'g world list option" where
  "history w [] = Some [w]"
| "history w (ev # evs) =
     (case step w ev of
        (Done, w') \<Rightarrow> map_option ((#) w) (history w' evs)
      | (Raised st e, w') \<Rightarrow> None)"

text \<open>The watermark a world holds, as the next run will read it.\<close>

definition watermark :: "'g world \<Rightarrow> datetime option" where
  "watermark w =
     (case state_file w of
        Doc d \<Rightarrow> (case last_file_dt d of
                    None \<Rightarrow> None
                  | Some text \<Rightarrow> (case fromisoformat text of Inl e \<Rightarrow> None | Inr t \<Rightarrow> Some t))
      | _ \<Rightarrow> None)"

definition wm_le :: "datetime option \<Rightarrow> datetime option \<Rightarrow> bool" where
  "wm_le a b = (case a of None \<Rightarrow> True | Some x \<Rightarrow> (case b of None \<Rightarrow> False | Some y \<Rightarrow> dt_le x y))"

fun nondecreasing :: "datetime option list \<Rightarrow> bool" where
  "nondecreasing (a # b # rest) = (wm_le a b \<and> nondecreasing (b # rest))"
| "nondecreasing _ = True"

text \<open>
  Vocabulary for the watermark: the file dates of a table; a watermark is grounded when
  some raw row is dated at or after it (as it is when a run took it from the table); a
  timestamp round-trips when \<^verbatim>\<open>fromisoformat\<close> reads back what \<^verbatim>\<open>isoformat\<close> wrote;
  the rows a history appends.
\<close>

definition file_dates :: "row list \<Rightarrow> datetime list" where
  "file_dates tbl =
     concat (map (\<lambda>r. case r ''file_date'' of Some (PyTimestamp t) \<Rightarrow> [t] | _ \<Rightarrow> []) tbl)"

definition grounded :: "'g world \<Rightarrow> bool" where
  "grounded w =
     (case watermark w of
        None \<Rightarrow> True
      | Some t \<Rightarrow> list_ex (dt_le t) (file_dates (source_table (db w))))"

definition iso_roundtrips :: "row list \<Rightarrow> bool" where
  "iso_roundtrips tbl = list_all (\<lambda>t. fromisoformat (isoformat t) = Inr t) (file_dates tbl)"

fun appended :: "'g event list \<Rightarrow> row list" where
  "appended [] = []"
| "appended (Append new_rows # evs) = new_rows @ appended evs"
| "appended (Run cfg E # evs) = appended evs"

text \<open>
  Example data: a row of the raw table, the parsers on the two spellings of one instant
  used below, a configuration, and an environment in which nothing fails.
\<close>

definition raw_leg :: "string \<Rightarrow> string \<Rightarrow> datetime \<Rightarrow> row" where
  "raw_leg u start file_dt =
     [''user_trip_id'' \<mapsto> PyStr u, ''start_time'' \<mapsto> PyStr start,
      ''start_longitude'' \<mapsto> PyFloat ''-98.5'', ''start_latitude'' \<mapsto> PyFloat ''29.4'',
      ''end_longitude'' \<mapsto> PyFloat ''-98.4'', ''end_latitude'' \<mapsto> PyFloat ''29.5'',
      ''source_file'' \<mapsto> PyStr ''f.csv'', ''file_date'' \<mapsto> PyTimestamp file_dt,
      ''Origin_BG'' \<mapsto> PyStr ''480291101001'', ''Dest_BG'' \<mapsto> PyStr ''480291101002'']"

definition pandas0 :: pandas where
  "pandas0 =
     \<lparr>parse_datetime = (\<lambda>v. None),
      parse_datetime_utc =
        (\<lambda>v. if v = PyStr ''2026-11-03T10:00Z'' \<or> v = PyStr ''2026-11-03 10:00+00:00''
             then Some \<lparr>ordinal = 739923, micros = 36000000000\<rparr> else None),
      parse_numeric = (\<lambda>v. ''nan'')\<rparr>"

definition config0 :: config where
  "config0 = \<lparr>rolling_days = 34, overlap_days = 5, proc_days_back = 31, proc_region_prefix = None\<rparr>"

definition env0 :: "int \<Rightarrow> nat env" where
  "env0 d =
     \<lparr>today = d, now_utc = ''2026-11-04T12:00:00+00:00'', pd = pandas0,
      connect_fails = False, fetch_fails = False,
      refresh_proc = (\<lambda>days_back prefix tbl g. Inr (length tbl)),
      commit_fails = False, save_fails = None\<rparr>"

definition world0 :: "row list \<Rightarrow> nat world" where
  "world0 tbl =
     \<lparr>state_file = Missing,
      db = \<lparr>source_table = tbl, clean_table = [], unique_row_hash = False, aggregates = 0\<rparr>\<rparr>"

section \<open>The ingest: enrichment of one file\<close>

record dataframe =
  columns :: "string list"
  rows :: "row list"

definition set_column :: "string \<Rightarrow> (row \<Rightarrow> pyval) \<Rightarrow> dataframe \<Rightarrow> dataframe" where
  "set_column c f df =
     \<lparr>columns = (if c \<in> set (columns df) then columns df else columns df @ [c]),
      rows = map (\<lambda>r. r(c \<mapsto> f r)) (rows df)\<rparr>"

text \<open>\<^verbatim>\<open>df[c] = values\<close>: \<^verbatim>\<open>ValueError\<close> unless there is one value per row.\<close>

definition assign_values :: "string \<Rightarrow> pyval list \<Rightarrow> dataframe \<Rightarrow> py_error + dataframe" where
  "assign_values c vals df =
     (if length vals \<noteq> length (rows df) then Inl ValueError
      else Inr \<lparr>columns = (if c \<in> set (columns df) then columns df else columns df @ [c]),
                rows = map (\<lambda>(r, v). r(c \<mapsto> v)) (zip (rows df) vals)\<rparr>)"

text \<open>\<^verbatim>\<open>s.replace(old, "")\<close>\<close>

function remove_all :: "string \<Rightarrow> string \<Rightarrow> string" where
  "remove_all old s =
     (if old = [] \<or> s = [] then s
      else if take (length old) s = old then remove_all old (drop (length old) s)
      else hd s # remove_all old (tl s))"
  by pat_completeness auto
termination
  by (relation "measure (\<lambda>(old, s). length s)") auto

declare remove_all.simps [simp del]

record ingest_config =
  filename_substring :: string
  file_suffix :: string

text \<open>
  Geometry is geopandas' and shapely's: the predicate \<^verbatim>\<open>within\<close> of a point (longitude,
  latitude) and a polygon, and the two distances of a pair of points in the projected
  system, in miles. The layer is the list of (area code, polygon) pairs in stored order.
\<close>

type_synonym point = "pyval \<times> pyval"

record 'p geometry =
  within :: "point \<Rightarrow> 'p \<Rightarrow> bool"
  distances_mi :: "point \<Rightarrow> point \<Rightarrow> pyval \<times> pyval"

text \<open>
  The area-code column of \<^verbatim>\<open>gpd.sjoin(points, layer, how="left", predicate="within")
  .sort_index()\<close>: one row for each polygon a point lies within, and one row holding
  \<^verbatim>\<open>NaN\<close> for a point within none.
\<close>

definition matches :: "(point \<Rightarrow> 'p \<Rightarrow> bool) \<Rightarrow> (pyval \<times> 'p) list \<Rightarrow> point \<Rightarrow> pyval list" where
  "matches wi layer pt = map fst (filter (\<lambda>cp. wi pt (snd cp)) layer)"

definition sjoin_left :: "(point \<Rightarrow> 'p \<Rightarrow> bool) \<Rightarrow> point list \<Rightarrow> (pyval \<times> 'p) list \<Rightarrow> pyval list" where
  "sjoin_left wi pts layer =
     concat (map (\<lambda>pt. case matches wi layer pt of [] \<Rightarrow> [PyFloat ''nan''] | ms \<Rightarrow> ms) pts)"

definition coord_cols :: "string list" where
  "coord_cols = [''start_longitude'', ''start_latitude'', ''end_longitude'', ''end_latitude'']"

text \<open>The loop over \<^verbatim>\<open>coord_cols\<close>: the first absent column raises \<^verbatim>\<open>KeyError\<close>.\<close>

fun clean_coords :: "pandas \<Rightarrow> string list \<Rightarrow> dataframe \<Rightarrow> py_error + dataframe" where
  "clean_coords P [] df = Inr df"
| "clean_coords P (c # cs) df =
     (if c \<notin> set (columns df) then Inl KeyError
      else clean_coords P cs (set_column c (\<lambda>r. to_numeric (parse_numeric P) (row_get r c)) df))"

definition dropna :: "string list \<Rightarrow> dataframe \<Rightarrow> dataframe" where
  "dropna cs df =
     df\<lparr>rows := filter (\<lambda>r. list_all (\<lambda>c. \<not> isna (row_get r c)) cs) (rows df)\<rparr>"

definition origin :: "row \<Rightarrow> point" where
  "origin r = (row_get r ''start_longitude'', row_get r ''start_latitude'')"

definition destination :: "row \<Rightarrow> point" where
  "destination r = (row_get r ''end_longitude'', row_get r ''end_latitude'')"

definition enrich_file_dataframe ::
  "pandas \<Rightarrow> 'p geometry \<Rightarrow> ingest_config \<Rightarrow> (pyval \<times> 'p) list \<Rightarrow> string \<Rightarrow> dataframe
     \<Rightarrow> py_error + dataframe" where
  "enrich_file_dataframe P G cfg bg_gdf fname df0 =
     (let df = set_column ''source_file'' (\<lambda>r. PyStr fname) df0;
          date_str = remove_all (file_suffix cfg) (remove_all (filename_substring cfg @ ''_'') fname);
          file_date = timestamp_val (to_datetime (parse_datetime P) (PyStr date_str));
          df = set_column ''file_date'' (\<lambda>r. file_date) df
      in case clean_coords P coord_cols df of
           Inl e \<Rightarrow> Inl e
         | Inr df \<Rightarrow>
             let df = dropna coord_cols df
             in if rows df = [] then Inr df
                else
                  let df = set_column ''manhattan_distance_mi''
                             (\<lambda>r. fst (distances_mi G (origin r) (destination r))) df;
                      df = set_column ''euclidean_distance_mi''
                             (\<lambda>r. snd (distances_mi G (origin r) (destination r))) df;
                      orig_join = sjoin_left (within G) (map origin (rows df)) bg_gdf
                  in case assign_values ''Origin_BG'' (map astype_string orig_join) df of
                       Inl e \<Rightarrow> Inl e
                     | Inr df \<Rightarrow>
                         let dest_join = sjoin_left (within G) (map destination (rows df)) bg_gdf
                         in case assign_values ''Dest_BG'' (map astype_string dest_join) df of
                              Inl e \<Rightarrow> Inl e
                            | Inr df \<Rightarrow>
                                Inr (foldl (\<lambda>d c. set_column c (\<lambda>r. astype_string (row_get r c)) d)
                                       df [''Origin_BG'', ''Dest_BG'', ''source_file'']))"

section \<open>The ingest run\<close>

text \<open>
  One listed file: its name and what \<^verbatim>\<open>session.get\<close> with \<^verbatim>\<open>raise_for_status\<close>
  yields. \<^verbatim>\<open>pd.read_csv\<close> and the failures of the SQL write are taken from outside.
\<close>

datatype download = HttpFailed | Body string

record 'p ingest_env =
  read_csv :: "string \<Rightarrow> py_error + dataframe"
  pandas_of :: pandas
  geometry_of :: "'p geometry"
  write_fails :: "dataframe \<Rightarrow> bool"

definition write_to_sql :: "'p ingest_env \<Rightarrow> row list \<Rightarrow> dataframe \<Rightarrow> py_error + (row list \<times> nat)" where
  "write_to_sql E target_table df =
     (if rows df = [] then Inr (target_table, 0)
      else if write_fails E df then Inl RuntimeError
      else Inr (target_table @ rows df, length (rows df)))"

text \<open>
  The loop of \<^verbatim>\<open>run\<close> over \<^verbatim>\<open>new_urls\<close>, with the raw table and \<^verbatim>\<open>total_inserted\<close>.
  Only \<^verbatim>\<open>pd.read_csv\<close> stands inside a \<^verbatim>\<open>try\<close>.
\<close>

fun ingest_run ::
  "'p ingest_env \<Rightarrow> ingest_config \<Rightarrow> (pyval \<times> 'p) list \<Rightarrow> (string \<times> download) list
     \<Rightarrow> row list \<Rightarrow> nat \<Rightarrow> (py_error + nat) \<times> row list" where
  "ingest_run E cfg bg_gdf [] tbl total_inserted = (Inr total_inserted, tbl)"
| "ingest_run E cfg bg_gdf ((fname, r) # new_urls) tbl total_inserted =
     (case r of
        HttpFailed \<Rightarrow> (Inl HTTPError, tbl)
      | Body text \<Rightarrow>
          (case read_csv E text of
             Inl e \<Rightarrow> ingest_run E cfg bg_gdf new_urls tbl total_inserted
           | Inr df \<Rightarrow>
               (case enrich_file_dataframe (pandas_of E) (geometry_of E) cfg bg_gdf fname df of
                  Inl e \<Rightarrow> (Inl e, tbl)
                | Inr df2 \<Rightarrow>
                    if rows df2 = [] then ingest_run E cfg bg_gdf new_urls tbl total_inserted
                    else (case write_to_sql E tbl df2 of
                            Inl e \<Rightarrow> (Inl e, tbl)
                          | Inr (tbl', inserted) \<Rightarrow>
                              ingest_run E cfg bg_gdf new_urls tbl' (total_inserted + inserted)))))"

section \<open>Properties of the content hash\<close>







lemma row_get_upd: "row_get (r(k \<mapsto> v)) f = (if f = k then v else row_get r f)"
  by (simp add: row_get_def)

lemma row_get_del: "row_get (r(k := None)) f = (if f = k then PyNone else row_get r f)"
  by (simp add: row_get_def)

lemma hash_parts_cong:
  "(\<And>f. f \<in> set hash_fields \<Longrightarrow> str_or_empty (row_get r f) = str_or_empty (row_get r' f))
   \<Longrightarrow> hash_parts r = hash_parts r'"
  unfolding hash_parts_def by (rule arg_cong [where f = collect]) simp

lemma rowhash_cong:
  "(\<And>f. f \<in> set hash_fields \<Longrightarrow> str_or_empty (row_get r f) = str_or_empty (row_get r' f))
   \<Longrightarrow> sha256_rowhash r = sha256_rowhash r'"
  by (simp add: sha256_rowhash_def hash_input_def hash_parts_cong [of r r'])

lemma falsy_str: "py_bool v = Inr False \<Longrightarrow> str_or_empty v = Inr []"
  by (simp add: str_or_empty_def)




text \<open>\<^verbatim>\<open>hashlib.sha256(b"abc").hexdigest()\<close>, the test vector of FIPS 180-4.\<close>

lemma sha256_abc:
  "hexdigest (sha256 ''abc'') = ''ba7816bf8f01cfea414140de5dae2223b00361a396177a9cb410ff61f20015ad''"
  by code_simp




text \<open>
  C9. A hashed field whose value is \<^verbatim>\<open>None\<close>, \<^verbatim>\<open>0\<close>, \<^verbatim>\<open>0.0\<close>, \<^verbatim>\<open>False\<close> or the empty
  string contributes the empty string to the hash input, as does an absent key; two rows
  that differ only by exchanging such values in one field have the same digest.
\<close>

theorem falsy_values_hash_alike:
  assumes "v \<in> {PyNone, PyInt 0, PyFloat ''0.0'', PyBool False, PyStr []}"
    and "w \<in> {PyNone, PyInt 0, PyFloat ''0.0'', PyBool False, PyStr []}"
  shows "str_or_empty v = Inr []
       \<and> sha256_rowhash (r(k \<mapsto> v)) = sha256_rowhash (r(k \<mapsto> w))
       \<and> sha256_rowhash (r(k \<mapsto> v)) = sha256_rowhash (r(k := None))"
proof -
  from assms have v: "str_or_empty v = Inr []" and w: "str_or_empty w = Inr []"
    by (auto simp: str_or_empty_def)
  have n: "str_or_empty PyNone = Inr []"
    by (simp add: str_or_empty_def)
  have "sha256_rowhash (r(k \<mapsto> v)) = sha256_rowhash (r(k \<mapsto> w))"
    by (rule rowhash_cong) (simp add: row_get_upd v w)
  moreover have "sha256_rowhash (r(k \<mapsto> v)) = sha256_rowhash (r(k := None))"
    by (rule rowhash_cong) (simp add: row_get_upd row_get_del v n)
  ultimately show ?thesis using v by simp
qed

theorem falsy_values_hash_alike_witness:
  "sha256_rowhash [''user_trip_id'' \<mapsto> PyStr ''t1'', ''end_longitude'' \<mapsto> PyNone]
     = sha256_rowhash [''user_trip_id'' \<mapsto> PyStr ''t1'', ''end_longitude'' \<mapsto> PyFloat ''0.0'']
   \<and> sha256_rowhash [''user_trip_id'' \<mapsto> PyStr ''t1'', ''end_longitude'' \<mapsto> PyInt 0]
     = sha256_rowhash [''user_trip_id'' \<mapsto> PyStr ''t1'']"
proof -
  have "sha256_rowhash ([''user_trip_id'' \<mapsto> PyStr ''t1''](''end_longitude'' \<mapsto> PyNone))
      = sha256_rowhash ([''user_trip_id'' \<mapsto> PyStr ''t1''](''end_longitude'' \<mapsto> PyFloat ''0.0''))"
    using falsy_values_hash_alike [of PyNone "PyFloat ''0.0''"] by simp
  moreover
  have "sha256_rowhash ([''user_trip_id'' \<mapsto> PyStr ''t1''](''end_longitude'' \<mapsto> PyInt 0))
      = sha256_rowhash ([''user_trip_id'' \<mapsto> PyStr ''t1''](''end_longitude'' := None))"
    using falsy_values_hash_alike [of "PyInt 0" "PyInt 0"] by simp
  ultimately show ?thesis by simp
qed

section \<open>The extraction boundary\<close>

text \<open>
  C5. With no prior \<^verbatim>\<open>last_file_dt\<close> the boundary is today minus \<^verbatim>\<open>rolling_days\<close> at
  00:00:00; otherwise it is the parsed \<^verbatim>\<open>last_file_dt\<close> minus \<^verbatim>\<open>overlap_days\<close>, time of
  day kept. With an absent watermark and 34 rolling days it is today minus 34 days at
  midnight. (Dates are those of \<^verbatim>\<open>datetime\<close>: 0001-01-01 to 9999-12-31.)
\<close>

theorem compute_since_boundary:
  "(\<bar>rd\<bar> \<le> 999999999 \<and> 0 < d0 - rd \<and> d0 - rd \<le> MAXORDINAL
      \<longrightarrow> compute_since d0 None rd od = Inr \<lparr>ordinal = d0 - rd, micros = 0\<rparr>)
   \<and> (fromisoformat text = Inr w \<and> \<bar>od\<bar> \<le> 999999999 \<and> 0 < ordinal w - od
        \<and> ordinal w - od \<le> MAXORDINAL
      \<longrightarrow> compute_since d0 (Some text) rd od
            = Inr \<lparr>ordinal = ordinal w - od, micros = micros w\<rparr>)
   \<and> (34 < d0 \<and> d0 \<le> MAXORDINAL + 34
      \<longrightarrow> compute_since d0 None 34 od = Inr (midnight (d0 - 34)))"
  by (cases w) (simp add: compute_since_def sub_days_def midnight_def MAXORDINAL_def)

theorem compute_since_boundary_witness:
  "ymd2ord 2026 11 4 = 739924
   \<and> compute_since 739924 None 34 5 = Inr (midnight 739890)
   \<and> isoformat (midnight 739890) = ''2026-10-01 00:00:00''
   \<and> fromisoformat ''2026-10-30 06:30:00'' = Inr \<lparr>ordinal = 739919, micros = 23400000000\<rparr>
   \<and> compute_since 739924 (Some ''2026-10-30 06:30:00'') 34 5
       = Inr \<lparr>ordinal = 739914, micros = 23400000000\<rparr>
   \<and> isoformat \<lparr>ordinal = 739914, micros = 23400000000\<rparr> = ''2026-10-25 06:30:00''"
proof -
  have d: "ymd2ord 2026 11 4 = 739924"
    by code_simp
  have p: "isoformat (midnight 739890) = ''2026-10-01 00:00:00''"
    by code_simp
  have f: "fromisoformat ''2026-10-30 06:30:00'' = Inr \<lparr>ordinal = 739919, micros = 23400000000\<rparr>"
    by code_simp
  have q: "isoformat \<lparr>ordinal = 739914, micros = 23400000000\<rparr> = ''2026-10-25 06:30:00''"
    by code_simp
  from compute_since_boundary [of 34 739924 5 "''2026-10-30 06:30:00''"
      "\<lparr>ordinal = 739919, micros = 23400000000\<rparr>"]
  have "compute_since 739924 None 34 5 = Inr (midnight 739890)"
    and "compute_since 739924 (Some ''2026-10-30 06:30:00'') 34 5
       = Inr \<lparr>ordinal = 739914, micros = 23400000000\<rparr>"
    using f by (simp_all add: MAXORDINAL_def midnight_def)
  with d p f q show ?thesis by simp
qed

section \<open>The insert-only merge\<close>

lemma stage_rows_eq:
  "stage_rows chunk rs batch stg staged =
     (if list_all stg_accepts (batch @ map (map sql_safe) rs)
      then Inr (stg @ batch @ map (map sql_safe) rs, staged + length batch + length rs)
      else Inl DbError)"
proof (induction rs arbitrary: batch stg staged)
  case Nil
  show ?case by (cases batch) (auto simp: executemany_def)
next
  case (Cons r rs)
  show ?case
    by (auto simp: Let_def executemany_def Cons.IH)
qed

lemma upsert_eq:
  "upsert_legtrips_clean uq tgt df =
     (if df = [] then Inr (tgt, 0)
      else if list_all stg_accepts (staged_rows df)
      then (case merge_clean uq tgt (staged_rows df) of
              Inl e \<Rightarrow> Inl e
            | Inr tgt' \<Rightarrow> Inr (tgt', length df))
      else Inl DbError)"
  by (simp add: upsert_legtrips_clean_def stage_rows_eq staged_rows_def comp_def
      split: sum.splits)

lemma merge_clean_Inr:
  "merge_clean uq tgt stg = Inr tgt' \<longleftrightarrow>
     (\<exists>src. those_opt (map to_insert stg) = Some src
        \<and> tgt' = tgt @ filter (\<lambda>s. row_hash s \<notin> row_hash ` set tgt) src
        \<and> (uq \<longrightarrow> distinct (map row_hash tgt')))"
  by (auto simp: merge_clean_def Let_def split: option.splits)

lemma merge_clean_again:
  assumes "merge_clean uq tgt stg = Inr tgt'"
  shows "merge_clean uq tgt' stg = Inr tgt'"
proof -
  from assms obtain src where src: "those_opt (map to_insert stg) = Some src"
    and t: "tgt' = tgt @ filter (\<lambda>s. row_hash s \<notin> row_hash ` set tgt) src"
    and u: "uq \<longrightarrow> distinct (map row_hash tgt')"
    by (auto simp: merge_clean_Inr)
  have "filter (\<lambda>s. row_hash s \<notin> row_hash ` set tgt') src = []"
    by (auto simp: t filter_empty_conv)
  with src u show ?thesis
    by (simp add: merge_clean_Inr)
qed

lemma source_recs_Nil: "source_recs [] = Some []"
  by (simp add: source_recs_def staged_rows_def)

text \<open>
  C2. When the upsert returns, the table is the old table, unchanged and in place,
  followed by exactly those staged rows whose hash no row of the old table had; the count
  returned is the number of rows staged; and the same batch merged again into the result
  returns the same table, inserting nothing.
\<close>

theorem upsert_insert_only_idempotent:
  assumes "upsert_legtrips_clean uq tgt batch = Inr (tgt', n)"
  shows "\<exists>src. source_recs batch = Some src
           \<and> tgt' = tgt @ filter (\<lambda>s. row_hash s \<notin> row_hash ` set tgt) src
           \<and> n = length batch
           \<and> upsert_legtrips_clean uq tgt' batch = Inr (tgt', n)
           \<and> filter (\<lambda>s. row_hash s \<notin> row_hash ` set tgt') src = []"
proof (cases "batch = []")
  case True
  with assms show ?thesis
    by (simp add: upsert_eq source_recs_Nil)
next
  case False
  with assms have acc: "list_all stg_accepts (staged_rows batch)"
    and m: "merge_clean uq tgt (staged_rows batch) = Inr tgt'" and n: "n = length batch"
    by (auto simp: upsert_eq split: if_splits sum.splits)
  from m obtain src where src: "source_recs batch = Some src"
    and t: "tgt' = tgt @ filter (\<lambda>s. row_hash s \<notin> row_hash ` set tgt) src"
    by (auto simp: merge_clean_Inr source_recs_def)
  have "upsert_legtrips_clean uq tgt' batch = Inr (tgt', n)"
    using False acc n merge_clean_again [OF m] by (simp add: upsert_eq)
  moreover have "filter (\<lambda>s. row_hash s \<notin> row_hash ` set tgt') src = []"
    by (auto simp: t filter_empty_conv)
  ultimately show ?thesis using src t n by blast
qed

lemma staged_rows_Nil: "staged_rows [] = []"
  by (simp add: staged_rows_def)

lemma staged_rows_leg:
  "staged_rows (clean_leg h u # rest)
     = (PyStr h # PyStr u # PyDate 739007 # replicate 17 PyNone) # staged_rows rest"
  by (simp add: staged_rows_def clean_leg_def cols_def row_get_def sql_safe_def isna_def
      eval_nat_numeral)

lemmas upsert_eval =
  upsert_eq staged_rows_leg staged_rows_Nil stg_accepts_def merge_clean_def to_insert_def
  convert_varbinary32_def hex_val_def clean_leg_rec_def

theorem upsert_insert_only_idempotent_witness:
  "upsert_legtrips_clean False [clean_leg_rec [char_of (171 :: int)] ''t0'']
       [clean_leg ''ab'' ''t1'', clean_leg ''cd'' ''t2'']
     = Inr ([clean_leg_rec [char_of (171 :: int)] ''t0'', clean_leg_rec [char_of (205 :: int)] ''t2''], 2)
   \<and> upsert_legtrips_clean False
       [clean_leg_rec [char_of (171 :: int)] ''t0'', clean_leg_rec [char_of (205 :: int)] ''t2'']
       [clean_leg ''ab'' ''t1'', clean_leg ''cd'' ''t2'']
     = Inr ([clean_leg_rec [char_of (171 :: int)] ''t0'', clean_leg_rec [char_of (205 :: int)] ''t2''], 2)"
proof -
  have h: "upsert_legtrips_clean False [clean_leg_rec [char_of (171 :: int)] ''t0'']
       [clean_leg ''ab'' ''t1'', clean_leg ''cd'' ''t2'']
     = Inr ([clean_leg_rec [char_of (171 :: int)] ''t0'', clean_leg_rec [char_of (205 :: int)] ''t2''], 2)"
    by (simp add: upsert_eval)
  from upsert_insert_only_idempotent [OF h] show ?thesis
    using h by blast
qed






section \<open>The transform run\<close>

lemma hex_val_digit:
  "n < 16 \<Longrightarrow> hex_val (''0123456789abcdef'' ! n) = Some (int n)"
  by (auto simp: hex_val_def numeral_eq_Suc less_Suc_eq)

lemma char_of_hi_lo:
  "char_of (int ((of_char b :: nat) div 16) * 16 + int ((of_char b :: nat) mod 16)) = b"
proof -
  have "int ((of_char b :: nat) div 16) * 16 + int ((of_char b :: nat) mod 16)
      = int (of_char b)"
    by presburger
  then show ?thesis
    by (simp add: of_nat_of_char)
qed

lemma unhex_hexdigest: "unhex (hexdigest bs) = Some bs"
proof (induction bs)
  case Nil
  show ?case by (simp add: hexdigest_def)
next
  case (Cons b bs)
  have d: "(of_char b :: nat) div 16 < 16" "(of_char b :: nat) mod 16 < 16"
    using nat_of_char_less_256 [of b] by linarith+
  from Cons show ?case
    using hex_val_digit [OF d(1)] hex_val_digit [OF d(2)] char_of_hi_lo [of b]
    by (simp add: hexdigest_def)
qed

lemma length_sha256: "length (sha256 m) = 32"
  by (simp add: sha256_def be_bytes_def split: prod.splits)

lemma convert_hexdigest: "convert_varbinary32 (PyStr (hexdigest (sha256 m))) = Some (sha256 m)"
  by (simp add: convert_varbinary32_def unhex_hexdigest length_sha256)

text \<open>
  C4. A run that raises anywhere before the state file is written (loading the state, the
  boundary, connecting, extraction, transformation, merge, refresh or commit) leaves the
  world as it was: the database holds what it held (the transaction is rolled back) and
  the state file is untouched. The state file changes only in a run that has committed.
\<close>

theorem run_failure_leaves_world:
  assumes "run cfg E w = (out, w')"
  shows "(out = Raised st e \<and> st \<noteq> SaveState \<longrightarrow> w' = w)
       \<and> (state_file w' \<noteq> state_file w \<longrightarrow>
            (out = Done \<or> out = Raised SaveState OSError) \<and> \<not> commit_fails E)"
  using assms
  by (auto simp: run_def abort_def Let_def connect_sql_def rollback_def close_def commit_def
      split: sum.splits if_splits option.splits prod.splits)

lemma row_get_convert_columns:
  "row_get (convert_columns P r) k =
     (if k \<in> set string_cols then astype_string (row_get r k)
      else if k \<in> set numeric_cols then to_numeric (parse_numeric P) (row_get r k)
      else if k = ''end_time_utc''
        then timestamp_val (to_datetime (parse_datetime_utc P) (row_get r ''end_time''))
      else if k = ''start_time_utc''
        then timestamp_val (to_datetime (parse_datetime_utc P) (row_get r ''start_time''))
      else if k = ''trip_date''
        then date_val (to_datetime (parse_datetime P) (row_get r ''file_date_raw''))
      else row_get r k)"
  by (simp add: convert_columns_def Let_def numeric_cols_def string_cols_def row_get_def)

lemma dt_le_refl: "dt_le a a"
  by (simp add: dt_le_def)

lemma dt_le_trans: "dt_le a b \<Longrightarrow> dt_le b c \<Longrightarrow> dt_le a c"
  by (auto simp: dt_le_def)

lemma dt_le_total: "\<not> dt_le a b \<Longrightarrow> dt_le b a"
  by (auto simp: dt_le_def)

lemma later_Some_fold:
  "\<exists>m. foldl later (Some a) (map Some ts) = Some m \<and> m \<in> set (a # ts)
        \<and> (\<forall>t \<in> set (a # ts). dt_le t m)"
proof (induction ts arbitrary: a)
  case Nil
  show ?case by (simp add: dt_le_refl)
next
  case (Cons t ts)
  show ?case
  proof (cases "dt_le a t")
    case True
    then have step: "later (Some a) (Some t) = Some t"
      by (simp add: later_def)
    from Cons [of t] obtain m where m: "foldl later (Some t) (map Some ts) = Some m"
      "m \<in> set (t # ts)" "\<forall>x \<in> set (t # ts). dt_le x m" by blast
    from m(3) True have "dt_le a m" by (auto intro: dt_le_trans)
    with m show ?thesis by (auto simp: step)
  next
    case False
    then have step: "later (Some a) (Some t) = Some a"
      by (simp add: later_def)
    from Cons [of a] obtain m where m: "foldl later (Some a) (map Some ts) = Some m"
      "m \<in> set (a # ts)" "\<forall>x \<in> set (a # ts). dt_le x m" by blast
    from m(3) False have "dt_le t m" by (auto intro: dt_le_trans dt_le_total)
    with m show ?thesis by (auto simp: step)
  qed
qed

lemma max_of_Somes:
  "ts \<noteq> [] \<Longrightarrow> \<exists>m. foldl later None (map Some ts) = Some m \<and> m \<in> set ts
        \<and> (\<forall>t \<in> set ts. dt_le t m)"
proof (cases ts)
  case Nil
  assume "ts \<noteq> []" with Nil show ?thesis by simp
next
  case (Cons a rest)
  have "later None (Some a) = Some a" by (simp add: later_def)
  with Cons later_Some_fold [of a rest] show ?thesis by simp
qed

lemma file_dates_Cons:
  "file_dates (r # tbl) =
     (case r ''file_date'' of Some (PyTimestamp t) \<Rightarrow> [t] | _ \<Rightarrow> []) @ file_dates tbl"
  by (simp add: file_dates_def)

lemma selected_file_date:
  "r ''file_date'' = Some (PyTimestamp t)
     \<Longrightarrow> to_datetime p (row_get (select_row r) ''file_date_raw'') = Some t"
  by (simp add: select_row_def row_get_def to_datetime_def)

lemma fetched_dates:
  "map (\<lambda>r. to_datetime p (row_get r ''file_date_raw'')) (fetch_new_raw tbl since)
     = map Some (filter (dt_le since) (file_dates tbl))"
proof (induction tbl)
  case Nil
  show ?case by (simp add: fetch_new_raw_def file_dates_def)
next
  case (Cons r tbl)
  have cons: "fetch_new_raw (r # tbl) since
      = (if file_date_ge since r then [select_row r] else []) @ fetch_new_raw tbl since"
    by (simp add: fetch_new_raw_def)
  show ?case
  proof (cases "\<exists>t. r ''file_date'' = Some (PyTimestamp t)")
    case True
    then obtain t where t: "r ''file_date'' = Some (PyTimestamp t)" by blast
    then have "file_date_ge since r = dt_le since t"
      by (simp add: file_date_ge_def)
    with t Cons show ?thesis
      by (simp add: cons file_dates_Cons selected_file_date)
  next
    case False
    then have "\<not> file_date_ge since r"
      and "(case r ''file_date'' of Some (PyTimestamp t) \<Rightarrow> [t] | _ \<Rightarrow> []) = []"
      by (auto simp: file_date_ge_def split: option.splits pyval.splits)
    with Cons show ?thesis
      by (simp add: cons file_dates_Cons)
  qed
qed

lemma fetched_empty:
  "fetch_new_raw tbl since = [] \<longleftrightarrow> filter (dt_le since) (file_dates tbl) = []"
proof -
  have "length (fetch_new_raw tbl since) = length (filter (dt_le since) (file_dates tbl))"
    using arg_cong [OF fetched_dates [of "\<lambda>v. None" tbl since], of length] by simp
  then show ?thesis by (metis length_0_conv)
qed

lemma file_dates_append: "file_dates (a @ b) = file_dates a @ file_dates b"
  by (simp add: file_dates_def)

lemma run_Done:
  assumes "run cfg E w = (Done, w')"
  shows "\<exists>s since. load_state (state_file w) = Inr s
          \<and> compute_since (today E) (last_file_dt s) (rolling_days cfg) (overlap_days cfg) = Inr since
          \<and> state_file w' = Doc (next_state E s (fetch_new_raw (source_table (db w)) since))
          \<and> source_table (db w') = source_table (db w)"
  using assms
  by (auto simp: run_def abort_def Let_def connect_sql_def rollback_def close_def commit_def
      split: sum.splits if_splits option.splits prod.splits)


lemma wm_le_refl: "wm_le a a"
  by (simp add: wm_le_def dt_le_refl split: option.splits)

lemma watermark_loaded:
  "load_state (state_file w) = Inr s \<Longrightarrow>
     watermark w =
       (case last_file_dt s of None \<Rightarrow> None
        | Some text \<Rightarrow> (case fromisoformat text of Inl e \<Rightarrow> None | Inr t \<Rightarrow> Some t))"
  by (auto simp: load_state_def watermark_def split: state_file.splits)

lemma max_file_date_fetched:
  "max_file_date P (fetch_new_raw tbl since)
     = foldl later None (map Some (filter (dt_le since) (file_dates tbl)))"
  by (simp add: max_file_date_def fetched_dates)

lemma run_watermark_step:
  assumes run: "run cfg E w = (Done, w')"
    and g: "grounded w"
    and rt: "iso_roundtrips (source_table (db w))"
  shows "wm_le (watermark w) (watermark w') \<and> grounded w'"
proof -
  from run_Done [OF run] obtain s since where
    ls: "load_state (state_file w) = Inr s"
    and cs: "compute_since (today E) (last_file_dt s) (rolling_days cfg) (overlap_days cfg) = Inr since"
    and sf: "state_file w' = Doc (next_state E s (fetch_new_raw (source_table (db w)) since))"
    and tb: "source_table (db w') = source_table (db w)"
    by blast
  let ?tbl = "source_table (db w)"
  let ?ts = "filter (dt_le since) (file_dates ?tbl)"
  note wm = watermark_loaded [OF ls]
  show ?thesis
  proof (cases "?ts = []")
    case True
    then have "fetch_new_raw ?tbl since = []"
      by (simp add: fetched_empty)
    then have "watermark w' =
       (case last_file_dt s of None \<Rightarrow> None
        | Some text \<Rightarrow> (case fromisoformat text of Inl e \<Rightarrow> None | Inr t \<Rightarrow> Some t))"
      by (simp add: watermark_def sf next_state_def)
    then have "watermark w' = watermark w"
      by (simp only: wm)
    with g tb show ?thesis
      by (auto simp: grounded_def wm_le_refl split: option.splits)
  next
    case False
    then have ne: "fetch_new_raw ?tbl since \<noteq> []"
      by (simp add: fetched_empty)
    from max_of_Somes [OF False] obtain m where
      m: "foldl later None (map Some ?ts) = Some m" "m \<in> set ?ts" "\<forall>t \<in> set ?ts. dt_le t m"
      by blast
    from m(2) have mt: "m \<in> set (file_dates ?tbl)" and sm: "dt_le since m" by auto
    with rt have "fromisoformat (isoformat m) = Inr m"
      by (simp add: iso_roundtrips_def list_all_iff)
    then have w': "watermark w' = Some m"
      using ne m(1) by (simp add: watermark_def sf next_state_def max_file_date_fetched)
    have gr: "grounded w'"
      using mt by (auto simp: grounded_def w' tb list_ex_iff intro: dt_le_refl)
    have "wm_le (watermark w) (Some m)"
    proof (cases "watermark w")
      case None
      then show ?thesis by (simp add: wm_le_def)
    next
      case (Some t)
      with wm obtain iso where tx: "last_file_dt s = Some iso" "fromisoformat iso = Inr t"
        by (auto split: option.splits sum.splits)
      with cs have "sub_days t (overlap_days cfg) = Inr since"
        by (simp add: compute_since_def)
      from g Some obtain t' where t': "t' \<in> set (file_dates ?tbl)" "dt_le t t'"
        by (auto simp: grounded_def list_ex_iff)
      have "dt_le t' m"
      proof (cases "dt_le since t'")
        case True
        with t'(1) m(3) show ?thesis by simp
      next
        case False
        then have "dt_le t' since" by (rule dt_le_total)
        then show ?thesis using sm by (rule dt_le_trans)
      qed
      with t'(2) have "dt_le t m" by (rule dt_le_trans)
      with Some show ?thesis by (simp add: wm_le_def)
    qed
    with w' gr show ?thesis by simp
  qed
qed

lemma iso_roundtrips_append:
  "iso_roundtrips (a @ b) \<longleftrightarrow> iso_roundtrips a \<and> iso_roundtrips b"
  by (simp add: iso_roundtrips_def file_dates_append)

lemma step_watermark:
  assumes "step w ev = (Done, w')" and "grounded w"
    and "iso_roundtrips (source_table (db w) @ appended [ev])"
  shows "wm_le (watermark w) (watermark w') \<and> grounded w'
       \<and> source_table (db w') = source_table (db w) @ appended [ev]"
proof (cases ev)
  case (Append new_rows)
  with assms(1) have w': "w' = w\<lparr>db := (db w)\<lparr>source_table := source_table (db w) @ new_rows\<rparr>\<rparr>"
    by simp
  then have "watermark w' = watermark w"
    by (simp add: watermark_def)
  with assms(2) show ?thesis
    by (auto simp: Append w' grounded_def wm_le_refl file_dates_append split: option.splits)
next
  case (Run cfg E)
  with assms have r: "run cfg E w = (Done, w')" and rt: "iso_roundtrips (source_table (db w))"
    by simp_all
  from run_watermark_step [OF r assms(2) rt] run_Done [OF r] show ?thesis
    by (auto simp: Run)
qed

lemma history_hd: "history w evs = Some ws \<Longrightarrow> \<exists>rest. ws = w # rest"
  by (cases evs) (auto split: prod.splits outcome.splits)

lemma history_nondecreasing:
  "history w evs = Some ws \<Longrightarrow> grounded w
     \<Longrightarrow> iso_roundtrips (source_table (db w) @ appended evs)
     \<Longrightarrow> nondecreasing (map watermark ws)"
proof (induction evs arbitrary: w ws)
  case Nil
  then show ?case by auto
next
  case (Cons ev evs)
  from Cons.prems(1) obtain w' ws' where st: "step w ev = (Done, w')"
    and h: "history w' evs = Some ws'" and ws: "ws = w # ws'"
    by (auto split: prod.splits outcome.splits)
  have ap: "appended (ev # evs) = appended [ev] @ appended evs"
    by (cases ev) simp_all
  with Cons.prems(3) have rt1: "iso_roundtrips (source_table (db w) @ appended [ev])"
    and rt2: "iso_roundtrips ((source_table (db w) @ appended [ev]) @ appended evs)"
    by (simp_all add: iso_roundtrips_append)
  from step_watermark [OF st Cons.prems(2) rt1]
  have le: "wm_le (watermark w) (watermark w')" and g': "grounded w'"
    and tb: "source_table (db w') = source_table (db w) @ appended [ev]"
    by simp_all
  from Cons.IH [OF h g'] rt2 tb have nd: "nondecreasing (map watermark ws')"
    by simp
  from history_hd [OF h] obtain rest where "ws' = w' # rest" by blast
  with le nd ws show ?case by simp
qed

text \<open>
  C6. Along every history of appends to the raw table and successful runs, started from a
  world whose watermark is absent or grounded in the raw table, the watermark's
  \<^verbatim>\<open>last_file_dt\<close> never decreases (the file dates are timestamps that round-trip through
  their ISO text). A successful run that extracted no row leaves \<^verbatim>\<open>last_file_dt\<close> exactly
  as it was.
\<close>

theorem watermark_never_decreases:
  "(history w evs = Some ws \<and> grounded w \<and> iso_roundtrips (source_table (db w) @ appended evs)
      \<longrightarrow> nondecreasing (map watermark ws))
   \<and> (run cfg E w = (Done, w') \<and> load_state (state_file w) = Inr s
        \<and> compute_since (today E) (last_file_dt s) (rolling_days cfg) (overlap_days cfg) = Inr since
        \<and> fetch_new_raw (source_table (db w)) since = []
      \<longrightarrow> (\<exists>s'. state_file w' = Doc s' \<and> last_file_dt s' = last_file_dt s))"
proof (intro conjI impI)
  assume "history w evs = Some ws \<and> grounded w
    \<and> iso_roundtrips (source_table (db w) @ appended evs)"
  then show "nondecreasing (map watermark ws)"
    using history_nondecreasing [of w evs ws] by blast
next
  assume a: "run cfg E w = (Done, w') \<and> load_state (state_file w) = Inr s
        \<and> compute_since (today E) (last_file_dt s) (rolling_days cfg) (overlap_days cfg) = Inr since
        \<and> fetch_new_raw (source_table (db w)) since = []"
  with run_Done [of cfg E w w'] show "\<exists>s'. state_file w' = Doc s' \<and> last_file_dt s' = last_file_dt s"
    by (auto simp: next_state_def)
qed

lemma collect_all_Inr:
  "collect (map f xs) = Inr ys \<Longrightarrow> x \<in> set xs \<Longrightarrow> \<exists>y. f x = Inr y"
  by (induction xs arbitrary: ys) (auto split: sum.splits)

lemma collect_map_length: "collect xs = Inr ys \<Longrightarrow> length ys = length xs"
  by (induction xs arbitrary: ys) (auto split: sum.splits)

lemma collect_map_set:
  "collect (map f xs) = Inr ys \<Longrightarrow> y \<in> set ys \<Longrightarrow> \<exists>x \<in> set xs. f x = Inr y"
  by (induction xs arbitrary: ys) (auto split: sum.splits)

lemma hashed_user_trip_id:
  assumes "sha256_rowhash (convert_columns P r) = Inr h"
  shows "\<exists>u. row_get (convert_columns P r) ''user_trip_id'' = PyStr u"
proof -
  from assms obtain ps where "hash_parts (convert_columns P r) = Inr ps"
    by (auto simp: sha256_rowhash_def hash_input_def split: sum.splits)
  then obtain y where "str_or_empty (row_get (convert_columns P r) ''user_trip_id'') = Inr y"
    unfolding hash_parts_def
    using collect_all_Inr [of "\<lambda>k. str_or_empty (row_get (convert_columns P r) k)" hash_fields ps
        "''user_trip_id''"]
    by (auto simp: hash_fields_def)
  then have "row_get (convert_columns P r) ''user_trip_id'' \<noteq> PyNA"
    by (auto simp: str_or_empty_def)
  then show ?thesis
    by (auto simp: row_get_convert_columns string_cols_def astype_string_def)
qed

lemma rowhash_is_hexdigest:
  "sha256_rowhash d = Inr h \<Longrightarrow> \<exists>m. hash_input d = Inr m \<and> h = hexdigest (sha256 m)"
  by (auto simp: sha256_rowhash_def split: sum.splits)

lemma row_get_out_row:
  "row_get (out_row d) k = (if k \<in> set cols then replace_inf (row_get d k) else PyNone)"
  by (simp add: out_row_def row_get_def)

text \<open>What a row of the transform's output looks like to the staging table and the merge.\<close>

lemma clean_row_shape:
  assumes ct: "clean_transform P raw = Inr clean" and ne: "raw \<noteq> []" and c: "c \<in> set clean"
  shows "\<exists>r \<in> set raw. \<exists>m u d.
           hash_input (convert_columns P r) = Inr m
         \<and> to_datetime (parse_datetime P) (row_get r ''file_date_raw'') = Some d
         \<and> row_get c ''row_hash_hex'' = PyStr (hexdigest (sha256 m))
         \<and> row_get c ''user_trip_id'' = PyStr u
         \<and> row_get c ''trip_date'' = PyDate (ordinal d)
         \<and> (\<forall>k. k \<noteq> ''row_hash_hex'' \<longrightarrow>
               row_get c k = (if k \<in> set cols then replace_inf (row_get (convert_columns P r) k) else PyNone))"
proof -
  from ct ne obtain df where df: "collect (map (hashed_row P) raw) = Inr df"
    and cl: "clean = map out_row (filter (\<lambda>r. \<not> isna (row_get r ''trip_date'')) df)"
    by (auto simp: clean_transform_def split: sum.splits)
  from c cl obtain d where d: "d \<in> set df" "\<not> isna (row_get d ''trip_date'')" "c = out_row d"
    by auto
  from collect_map_set [OF df d(1)] obtain r where r: "r \<in> set raw" "hashed_row P r = Inr d"
    by blast
  from r(2) obtain h where h: "sha256_rowhash (convert_columns P r) = Inr h"
    and dd: "d = (convert_columns P r)(''row_hash_hex'' \<mapsto> PyStr h)"
    by (auto simp: hashed_row_def Let_def split: sum.splits)
  from rowhash_is_hexdigest [OF h] obtain m where m: "hash_input (convert_columns P r) = Inr m"
    "h = hexdigest (sha256 m)" by blast
  from hashed_user_trip_id [OF h] obtain u where
    u: "row_get (convert_columns P r) ''user_trip_id'' = PyStr u" by blast
  have other: "\<And>k. k \<noteq> ''row_hash_hex'' \<Longrightarrow> row_get d k = row_get (convert_columns P r) k"
    by (simp add: dd row_get_def)
  from d(2) obtain t where t: "to_datetime (parse_datetime P) (row_get r ''file_date_raw'') = Some t"
    by (cases "to_datetime (parse_datetime P) (row_get r ''file_date_raw'')")
       (auto simp: other row_get_convert_columns string_cols_def numeric_cols_def date_val_def isna_def)
  have dh: "row_get d ''row_hash_hex'' = PyStr (hexdigest (sha256 m))"
    by (simp add: dd row_get_def m(2))
  have "row_get c ''row_hash_hex'' = PyStr (hexdigest (sha256 m))"
    by (simp add: d(3) row_get_out_row cols_def dh replace_inf_def)
  moreover have "row_get c ''user_trip_id'' = PyStr u"
    using u other [of "''user_trip_id''"]
    by (simp add: d(3) row_get_out_row cols_def replace_inf_def)
  moreover have "row_get c ''trip_date'' = PyDate (ordinal t)"
    using other [of "''trip_date''"] t
    by (simp add: d(3) row_get_out_row cols_def row_get_convert_columns
        string_cols_def numeric_cols_def date_val_def replace_inf_def)
  moreover have "\<forall>k. k \<noteq> ''row_hash_hex'' \<longrightarrow>
               row_get c k = (if k \<in> set cols then replace_inf (row_get (convert_columns P r) k) else PyNone)"
    using other by (simp add: d(3) row_get_out_row)
  ultimately show ?thesis using r(1) m(1) t by blast
qed

lemma length_cols: "length cols = 20"
  by (simp add: cols_def)

lemma those_opt_map_Some:
  "(\<And>x. x \<in> set xs \<Longrightarrow> f x = Some (g x)) \<Longrightarrow> those_opt (map f xs) = Some (map g xs)"
  by (induction xs) auto

lemma cols_nth:
  "cols ! 0 = ''row_hash_hex''" "cols ! Suc 0 = ''user_trip_id''" "cols ! 2 = ''trip_date''"
  "hd cols = ''row_hash_hex''"
  by (simp_all add: cols_def)

lemma staged_row_of_clean:
  assumes "row_get c ''row_hash_hex'' = PyStr (hexdigest (sha256 m))"
    and "row_get c ''user_trip_id'' = PyStr u"
    and "row_get c ''trip_date'' = PyDate n"
  shows "stg_accepts (map sql_safe (map (row_get c) cols))"
    and "to_insert (map sql_safe (map (row_get c) cols))
         = Some \<lparr>row_hash = sha256 m, payload = map sql_safe (map (row_get c) (tl cols))\<rparr>"
proof -
  let ?row = "map sql_safe (map (row_get c) cols)"
  have s: "sql_safe (PyStr (hexdigest (sha256 m))) = PyStr (hexdigest (sha256 m))"
    "sql_safe (PyStr u) = PyStr u" "sql_safe (PyDate n) = PyDate n"
    by (simp_all add: sql_safe_def isna_def)
  have l: "length ?row = 20"
    by (simp add: length_cols)
  have n0: "?row ! 0 = PyStr (hexdigest (sha256 m))"
    using nth_map [of 0 "map (row_get c) cols" sql_safe] nth_map [of 0 cols "row_get c"]
    by (simp add: length_cols cols_nth assms s)
  have n1: "?row ! 1 = PyStr u"
    using nth_map [of 1 "map (row_get c) cols" sql_safe] nth_map [of 1 cols "row_get c"]
    by (simp add: length_cols cols_nth assms s)
  have n2: "?row ! 2 = PyDate n"
    using nth_map [of 2 "map (row_get c) cols" sql_safe] nth_map [of 2 cols "row_get c"]
    by (simp add: length_cols cols_nth assms s)
  show "stg_accepts ?row"
    unfolding stg_accepts_def by (simp only: l n0 n1 n2) simp
  have ne: "cols \<noteq> []"
    using length_cols by auto
  have h: "hd ?row = PyStr (hexdigest (sha256 m))"
    using ne by (simp add: hd_map cols_nth assms s)
  have t: "tl ?row = map sql_safe (map (row_get c) (tl cols))"
    by (simp add: map_tl)
  show "to_insert ?row
         = Some \<lparr>row_hash = sha256 m, payload = map sql_safe (map (row_get c) (tl cols))\<rparr>"
    unfolding to_insert_def by (simp only: h t convert_hexdigest) simp
qed

text \<open>
  The rows the transform returns always pass the staging table's \<^verbatim>\<open>NOT NULL\<close> columns and
  the \<^verbatim>\<open>CONVERT\<close> of the merge; without a uniqueness constraint the upsert of a
  transform's output cannot fail.
\<close>

lemma transform_output_staged:
  assumes "clean_transform P raw = Inr clean"
  shows "list_all stg_accepts (staged_rows clean) \<and> (\<exists>src. source_recs clean = Some src)"
proof (cases "raw = []")
  case True
  with assms show ?thesis
    by (simp add: clean_transform_def staged_rows_def source_recs_def)
next
  case False
  have each: "\<And>c. c \<in> set clean \<Longrightarrow>
      stg_accepts (map sql_safe (map (row_get c) cols))
      \<and> (\<exists>rec. to_insert (map sql_safe (map (row_get c) cols)) = Some rec)"
  proof -
    fix c assume "c \<in> set clean"
    from clean_row_shape [OF assms False this] obtain r m u d where
      sh: "hash_input (convert_columns P r) = Inr m
         \<and> to_datetime (parse_datetime P) (row_get r ''file_date_raw'') = Some d
         \<and> row_get c ''row_hash_hex'' = PyStr (hexdigest (sha256 m))
         \<and> row_get c ''user_trip_id'' = PyStr u
         \<and> row_get c ''trip_date'' = PyDate (ordinal d)
         \<and> (\<forall>k. k \<noteq> ''row_hash_hex'' \<longrightarrow>
               row_get c k = (if k \<in> set cols then replace_inf (row_get (convert_columns P r) k) else PyNone))"
      by (elim bexE exE)
    from sh have k1: "row_get c ''row_hash_hex'' = PyStr (hexdigest (sha256 m))"
      by (elim conjE)
    from sh have k2: "row_get c ''user_trip_id'' = PyStr u"
      by (elim conjE)
    from sh have k3: "row_get c ''trip_date'' = PyDate (ordinal d)"
      by (elim conjE)
    from staged_row_of_clean [OF k1 k2 k3]
    show "stg_accepts (map sql_safe (map (row_get c) cols))
      \<and> (\<exists>rec. to_insert (map sql_safe (map (row_get c) cols)) = Some rec)"
      by (intro conjI exI)
  qed
  then have a: "list_all stg_accepts (staged_rows clean)"
    by (simp add: staged_rows_def list_all_iff)
  have "\<And>x. x \<in> set (staged_rows clean) \<Longrightarrow> to_insert x = Some (the (to_insert x))"
    using each by (auto simp: staged_rows_def)
  then have "source_recs clean = Some (map (\<lambda>x. the (to_insert x)) (staged_rows clean))"
    unfolding source_recs_def by (rule those_opt_map_Some)
  with a show ?thesis by blast
qed

lemma upsert_transform_output:
  assumes "clean_transform P raw = Inr clean"
  shows "\<exists>tgt'. upsert_legtrips_clean False tgt clean = Inr (tgt', length clean)"
proof -
  from transform_output_staged [OF assms] obtain src where
    "list_all stg_accepts (staged_rows clean)" "source_recs clean = Some src"
    by blast
  then show ?thesis
    by (simp add: upsert_eq merge_clean_def source_recs_def)
qed

end
